theory Spec2Isabelle
  imports Main "HOL-Library.AList"
begin

section \<open>JavaScript values\<close>

text \<open>
  The values that reach the dispatch core: what \<^verbatim>\<open>JSON.parse\<close> and the platform
  client produce (null, booleans, numbers, strings, arrays, objects), the value
  \<^verbatim>\<open>undefined\<close> that a missing property reads as, and an opaque binary handle
  (a byte buffer or a stream) that outbound parameters may carry.

  An object is an association list, read with \<open>map_of\<close>: the first pair of a key is
  the property. \<open>JNum n\<close> is the number whose value is the integer \<open>n\<close>; the platform's
  documents carry integers only.
\<close>

datatype jsval =
    JUndefined
  | JNull
  | JBool bool
  | JNum int
  | JStr string
  | JArr "jsval list"
  | JObj "(string \<times> jsval) list"
  | JBinary "nat list"

text \<open>Truthiness, as the tests \<^verbatim>\<open>if (v)\<close>, \<^verbatim>\<open>a && b\<close> and \<^verbatim>\<open>!v\<close> decide it.\<close>

fun js_truthy :: "jsval \<Rightarrow> bool" where
  "js_truthy JUndefined = False"
| "js_truthy JNull = False"
| "js_truthy (JBool b) = b"
| "js_truthy (JNum n) = (n \<noteq> 0)"
| "js_truthy (JStr s) = (s \<noteq> [])"
| "js_truthy (JArr xs) = True"
| "js_truthy (JObj kvs) = True"
| "js_truthy (JBinary bs) = True"

text \<open>
  The property read \<^verbatim>\<open>v[key]\<close> on a value that is neither null nor undefined (on
  those two the read throws a TypeError, which each caller below writes out). The
  keys read by the program are field names of the platform's documents, none of which
  names a built-in member (\<^verbatim>\<open>length\<close>, \<^verbatim>\<open>constructor\<close>, ...), so only own properties
  of objects are found and every other read gives \<^verbatim>\<open>undefined\<close>.
\<close>

fun js_get :: "jsval \<Rightarrow> string \<Rightarrow> jsval" where
  "js_get (JObj kvs) key = (case map_of kvs key of Some v \<Rightarrow> v | None \<Rightarrow> JUndefined)"
| "js_get v key = JUndefined"

text \<open>\<^verbatim>\<open>a && b\<close> and \<^verbatim>\<open>a || b\<close> on values.\<close>

definition js_and :: "jsval \<Rightarrow> jsval \<Rightarrow> jsval" where
  "js_and a b = (if js_truthy a then b else a)"

definition js_or :: "jsval \<Rightarrow> jsval \<Rightarrow> jsval" where
  "js_or a b = (if js_truthy a then a else b)"

datatype error =
    SyntaxError
  | TypeError
  | UndefinedUpdateType
  | TokenRequired
  | HeadersSent
  | UserError string

section \<open>The constants module\<close>

text \<open>
  \<^verbatim>\<open>require('./constants')\<close>: the ordered catalogs of recognized update kinds and of
  message subtypes. The module is not part of the sources at hand, so the catalogs
  are a parameter of everything below.
\<close>

record constants =
  updateTypes :: "string list"
  messageSubTypes :: "string list"

section \<open>Event normalizer: \<^verbatim>\<open>extractUpdate\<close>\<close>

text \<open>
  The object \<^verbatim>\<open>result\<close>; an unset field reads as \<^verbatim>\<open>undefined\<close>
  (\<open>JUndefined\<close>, \<open>None\<close>).
\<close>

record update_result =
  payload :: jsval
  type :: "string option"
  subType :: "string option"

definition empty_result :: update_result where
  "empty_result = \<lparr>payload = JUndefined, type = None, subType = None\<rparr>"

text \<open>The body of the first \<^verbatim>\<open>forEach\<close>, for one key.\<close>

definition type_step :: "jsval \<Rightarrow> update_result \<Rightarrow> string \<Rightarrow> update_result" where
  "type_step update result key =
     (if js_truthy (js_get update key)
      then result\<lparr>payload := js_get update key, type := Some key\<rparr>
      else result)"

text \<open>The body of the second \<^verbatim>\<open>forEach\<close>, for one subtype; \<open>message\<close> is \<^verbatim>\<open>update.message\<close>.\<close>

definition subtype_step :: "jsval \<Rightarrow> update_result \<Rightarrow> string \<Rightarrow> update_result" where
  "subtype_step message result messageType =
     (if js_truthy (js_get message messageType)
      then result\<lparr>subType := Some messageType\<rparr>
      else result)"

text \<open>
  \<^verbatim>\<open>extractUpdate(update)\<close>. Reading a property of null or undefined throws a
  TypeError: at \<^verbatim>\<open>update[key]\<close> in the first loop, or at \<^verbatim>\<open>update.message\<close> when the
  catalog is empty.
\<close>

definition extractUpdate :: "constants \<Rightarrow> jsval \<Rightarrow> error + update_result" where
  "extractUpdate cs update =
     (if update = JNull \<or> update = JUndefined then Inl TypeError
      else
        let result = foldl (type_step update) empty_result (updateTypes cs)
        in if js_truthy (js_get update ''message'')
           then Inr (foldl (subtype_step (js_get update ''message'')) result (messageSubTypes cs))
           else Inr result)"

text \<open>The keys of a catalog that a value matches, in catalog order.\<close>

definition matching :: "jsval \<Rightarrow> string list \<Rightarrow> string list" where
  "matching v keys = filter (\<lambda>key. js_truthy (js_get v key)) keys"

definition last_match :: "jsval \<Rightarrow> string list \<Rightarrow> string option" where
  "last_match v keys =
     (if matching v keys = [] then None else Some (last (matching v keys)))"

section \<open>Mutable state: polling cursor, response object, observations\<close>

text \<open>
  The value assigned to \<^verbatim>\<open>polling.offset\<close>. \<open>ONum n\<close> is the integer \<open>n\<close>, \<open>ONearest n\<close>
  the double nearest to the integer \<open>n\<close> (numbers are doubles: an integer beyond
  \<open>2 ^ 53\<close> need not be one), \<open>ONaN\<close> is \<^verbatim>\<open>NaN\<close>, and \<open>OConcat v\<close> is the string that
  \<^verbatim>\<open>v + 1\<close> concatenates from the text of \<open>v\<close> and \<^verbatim>\<open>"1"\<close> when \<open>v\<close> is a string, an
  array or an object.
\<close>

datatype offset_val = ONum int | ONearest int | ONaN | OConcat jsval

text \<open>\<^verbatim>\<open>v + 1\<close>, as in \<^verbatim>\<open>rawUpdate.update_id + 1\<close>.\<close>

fun js_plus_one :: "jsval \<Rightarrow> offset_val" where
  "js_plus_one JUndefined = ONaN"
| "js_plus_one JNull = ONum 1"
| "js_plus_one (JBool b) = ONum (if b then 2 else 1)"
| "js_plus_one (JNum n) =
     (if - (2 ^ 53) \<le> n \<and> n < 2 ^ 53 then ONum (n + 1) else ONearest (n + 1))"
| "js_plus_one v = OConcat v"

text \<open>
  \<^verbatim>\<open>http.ServerResponse\<close>, as far as the program uses it. \<open>body\<close> is the object whose
  JSON text \<^verbatim>\<open>end\<close> was given, if any.
\<close>

record response =
  statusCode :: nat
  headers :: "(string \<times> string) list"
  body :: "(string \<times> jsval) list option"
  finished :: bool

definition fresh_response :: response where
  "fresh_response = \<lparr>statusCode = 200, headers = [], body = None, finished = False\<rparr>"

definition writeHead :: "nat \<Rightarrow> response \<Rightarrow> response" where
  "writeHead code r = r\<lparr>statusCode := code\<rparr>"

definition end_response :: "response \<Rightarrow> response" where
  "end_response r = r\<lparr>finished := True\<rparr>"

text \<open>A remote invocation handed to \<^verbatim>\<open>fetch\<close>: an API method with its parameters, or
  the \<^verbatim>\<open>getUpdates\<close> query with timeout, limit and offset.\<close>

datatype request =
    Call string "(string \<times> jsval) list"
  | Updates jsval jsval offset_val

text \<open>
  What an observer sees, in order: the lines a handler records, a \<^verbatim>\<open>throw\<close> in a
  handler, the error handler printing an error, and the two \<^verbatim>\<open>console.error\<close> lines of
  the polling loop.
\<close>

datatype event =
    Logged string
  | Raised error
  | Reported error
  | NetworkError
  | PollingError error

record world =
  offset :: offset_val
  started :: bool
  timeout :: jsval
  limit :: jsval
  res :: response
  trace :: "event list"
  network :: "request list"

text \<open>The state the constructor sets up, with an open response.\<close>

definition new_world :: world where
  "new_world = \<lparr>offset = ONum 0, started = False, timeout = JUndefined, limit = JUndefined,
     res = fresh_response, trace = [], network = []\<rparr>"

record options =
  token :: "string option"
  webHookAnswer :: bool

section \<open>Middleware composer: \<^verbatim>\<open>Telegraf.compose\<close>\<close>

text \<open>
  A generator object is a suspended computation: run to its end, it changes the state
  and either completes or throws. A handler is a generator function: called with the
  context as receiver and the continuation as argument, it returns a generator object
  without running anything.
\<close>

datatype outcome = Done | Failed error

type_synonym gen = "world \<Rightarrow> world \<times> outcome"

record event_context =
  eventType :: string
  eventSubType :: "string option"
  eventPayload :: jsval
  chatId :: jsval
  viaResponse :: bool

type_synonym handler = "event_context \<Rightarrow> gen \<Rightarrow> gen"

text \<open>\<^verbatim>\<open>function * noop () {}\<close>\<close>

definition noop :: gen where
  "noop w = (w, Done)"

text \<open>
  The loop \<^verbatim>\<open>var i = middleware.length; while (i--) { next = middleware[i].call(this, next) }\<close>,
  with \<open>i\<close> the value tested by \<^verbatim>\<open>i--\<close>; the body sees \<open>i - 1\<close>.
\<close>

fun compose_loop :: "handler list \<Rightarrow> nat \<Rightarrow> event_context \<Rightarrow> gen \<Rightarrow> gen" where
  "compose_loop middleware 0 this next = next"
| "compose_loop middleware (Suc i) this next =
     compose_loop middleware i this ((middleware ! i) this next)"

text \<open>
  \<^verbatim>\<open>Telegraf.compose(middleware)\<close> called with receiver \<open>this\<close> and continuation
  \<open>next\<close> (\<open>None\<close> when it is missing); \<^verbatim>\<open>return yield * next\<close> runs the generator built
  by the loop.
\<close>

definition compose :: "handler list \<Rightarrow> event_context \<Rightarrow> gen option \<Rightarrow> gen" where
  "compose middleware this next =
     compose_loop middleware (length middleware) this
       (case next of None \<Rightarrow> noop | Some n \<Rightarrow> n)"

subsection \<open>Handlers of the consumer\<close>

text \<open>
  Handlers are supplied by the consumer. The properties below speak of handlers that
  record lines, pass control on with \<^verbatim>\<open>yield next\<close> and throw, without a
  \<^verbatim>\<open>try\<close> of their own: straight-line generator bodies over three statements.
  The runner resumes a body after \<^verbatim>\<open>yield next\<close> once the continuation has run to
  its end, and throws the continuation's error into the body at that point. A
  generator object runs once: yielded again, it is already finished.
\<close>

datatype stmt = Log string | YieldNext | Throw error

fun run_body :: "stmt list \<Rightarrow> gen \<Rightarrow> gen" where
  "run_body [] next w = (w, Done)"
| "run_body (Log line # rest) next w = run_body rest next (w\<lparr>trace := trace w @ [Logged line]\<rparr>)"
| "run_body (YieldNext # rest) next w =
     (case next w of
        (w1, Done) \<Rightarrow> run_body rest noop w1
      | (w1, Failed e) \<Rightarrow> (w1, Failed e))"
| "run_body (Throw e # rest) next w = (w\<lparr>trace := trace w @ [Raised e]\<rparr>, Failed e)"

definition handler_of :: "stmt list \<Rightarrow> handler" where
  "handler_of stmts = (\<lambda>this next. run_body stmts next)"

text \<open>The handler that records its entry, invokes its continuation and records its exit.\<close>

definition recorder :: "string \<Rightarrow> handler" where
  "recorder name = handler_of [Log (name @ ''-enter''), YieldNext, Log (name @ ''-exit'')]"

text \<open>The handler that records its entry and its exit and never invokes its continuation.\<close>

definition stopper :: "string \<Rightarrow> handler" where
  "stopper name = handler_of [Log (name @ ''-enter''), Log (name @ ''-exit'')]"

section \<open>Default error handler: \<^verbatim>\<open>onError\<close>\<close>

text \<open>Prints the error and throws it again.\<close>

definition onError :: "error \<Rightarrow> gen" where
  "onError err w = (w\<lparr>trace := trace w @ [Reported err]\<rparr>, Failed err)"

section \<open>Remote invoker: \<^verbatim>\<open>sendRequest\<close>\<close>

datatype send_result = Answered | Invoked | Threw error

text \<open>\<^verbatim>\<open>!this.options.token\<close>: a missing or empty token.\<close>

definition has_token :: "options \<Rightarrow> bool" where
  "has_token opts = (case token opts of None \<Rightarrow> False | Some t \<Rightarrow> t \<noteq> [])"

text \<open>
  \<^verbatim>\<open>Object.keys(options).filter((x) => options[x] && options[x].source).length > 0\<close>
\<close>

definition isFileRequest :: "(string \<times> jsval) list \<Rightarrow> bool" where
  "isFileRequest options =
     (filter (\<lambda>x. js_truthy (js_and (js_get (JObj options) x)
                                    (js_get (js_get (JObj options) x) ''source'')))
        (map fst options) \<noteq> [])"

text \<open>
  The second half of \<^verbatim>\<open>sendRequest\<close>: the token check and the call of \<^verbatim>\<open>fetch\<close>. The
  promise it returns settles later, with what the platform answers.
\<close>

definition network_call :: "options \<Rightarrow> request \<Rightarrow> world \<Rightarrow> world \<times> send_result" where
  "network_call opts rq w =
     (if \<not> has_token opts then (w, Threw TokenRequired)
      else (w\<lparr>network := network w @ [rq]\<rparr>, Invoked))"

text \<open>
  \<^verbatim>\<open>sendRequest(method, options, response)\<close>; \<open>response\<close> tells whether the response
  object \<open>res\<close> of the state was passed.
\<close>

definition sendRequest ::
  "options \<Rightarrow> string \<Rightarrow> (string \<times> jsval) list \<Rightarrow> bool \<Rightarrow> world \<Rightarrow> world \<times> send_result" where
  "sendRequest opts method options response w =
     (if response \<and> \<not> finished (res w) \<and> \<not> isFileRequest options
      then (w\<lparr>res := (res w)\<lparr>
                headers := AList.update ''Content-Type'' ''application/json'' (headers (res w)),
                body := Some (AList.update ''method'' (JStr method) options),
                finished := True\<rparr>\<rparr>, Answered)
      else network_call opts (Call method options) w)"

text \<open>\<^verbatim>\<open>getUpdates\<close>: \<^verbatim>\<open>sendRequest\<close> with the query as method and nothing else.\<close>

definition getUpdates :: "options \<Rightarrow> world \<Rightarrow> world \<times> send_result" where
  "getUpdates opts w = network_call opts (Updates (timeout w) (limit w) (offset w)) w"

text \<open>
  The \<^verbatim>\<open>sendRequest\<close> of the object \<open>proxy\<close> that \<^verbatim>\<open>handleUpdate\<close> binds the senders of
  the context to: the program itself, or the wrapper that passes \<^verbatim>\<open>webHookResponse\<close>.
\<close>

definition proxy_sendRequest ::
  "options \<Rightarrow> bool \<Rightarrow> string \<Rightarrow> (string \<times> jsval) list \<Rightarrow> world \<Rightarrow> world \<times> send_result" where
  "proxy_sendRequest opts webHookResponse method options w =
     (if webHookAnswer opts \<and> webHookResponse
      then sendRequest opts method options True w
      else sendRequest opts method options False w)"

text \<open>The calls that the handlers of one event make through the proxy, in order.\<close>

fun proxy_calls ::
  "options \<Rightarrow> bool \<Rightarrow> (string \<times> (string \<times> jsval) list) list \<Rightarrow> world
     \<Rightarrow> world \<times> send_result list" where
  "proxy_calls opts webHookResponse [] w = (w, [])"
| "proxy_calls opts webHookResponse ((method, options) # calls) w =
     (case proxy_sendRequest opts webHookResponse method options w of
        (w1, r) \<Rightarrow>
          (case proxy_calls opts webHookResponse calls w1 of
             (w2, rs) \<Rightarrow> (w2, r # rs)))"

section \<open>Dispatcher: \<^verbatim>\<open>handleUpdate\<close>\<close>

text \<open>
  The context built for one update: its type, subtype and payload, the conversation id
  \<^verbatim>\<open>(payload.chat && payload.chat.id) || (payload.message && payload.message.chat && payload.message.chat.id)\<close>
  and whether the senders go through the response object.
\<close>

definition build_context :: "options \<Rightarrow> string \<Rightarrow> update_result \<Rightarrow> bool \<Rightarrow> event_context" where
  "build_context opts t update webHookResponse =
     (let p = payload update in
      \<lparr>eventType = t,
       eventSubType = subType update,
       eventPayload = p,
       chatId =
         js_or (js_and (js_get p ''chat'') (js_get (js_get p ''chat'') ''id''))
               (js_and (js_and (js_get p ''message'') (js_get (js_get p ''message'') ''chat''))
                       (js_get (js_get (js_get p ''message'') ''chat'') ''id'')),
       viaResponse = (webHookAnswer opts \<and> webHookResponse)\<rparr>)"

text \<open>
  \<^verbatim>\<open>handleUpdate(rawUpdate, webHookResponse)\<close>. \<open>Inl\<close> is a synchronous throw, before a
  promise exists; \<open>Inr (w, Done)\<close> is the promise fulfilled and \<open>Inr (w, Failed e)\<close> the
  promise rejected with \<open>e\<close>.

  The runner \<^verbatim>\<open>ware()\<close> is an external module. What is used of it: \<^verbatim>\<open>run()\<close> runs the
  composed middleware with the context as receiver and no continuation; an error of
  the run is given to the \<^verbatim>\<open>'error'\<close> listener, and the error that the listener throws
  rejects the promise of \<^verbatim>\<open>run()\<close>.
\<close>

definition handleUpdate ::
  "constants \<Rightarrow> options \<Rightarrow> handler list \<Rightarrow> jsval \<Rightarrow> bool \<Rightarrow> world
     \<Rightarrow> error + (world \<times> outcome)" where
  "handleUpdate cs opts middleware rawUpdate webHookResponse w =
     (case extractUpdate cs rawUpdate of
        Inl e \<Rightarrow> Inl e
      | Inr update \<Rightarrow>
          (case type update of
             None \<Rightarrow> Inl UndefinedUpdateType
           | Some t \<Rightarrow>
               if t = [] then Inl UndefinedUpdateType
               else
                 (case compose middleware (build_context opts t update webHookResponse) None w of
                    (w1, Done) \<Rightarrow>
                      Inr (w1\<lparr>offset := js_plus_one (js_get rawUpdate ''update_id'')\<rparr>, Done)
                  | (w1, Failed e) \<Rightarrow> Inr (onError e w1))))"

section \<open>Webhook endpoint: \<^verbatim>\<open>webHookCallback\<close>\<close>

record http_request =
  http_method :: string
  url :: string
  body_text :: string

text \<open>
  How the callback ends: it answered the request, it handed the request to \<^verbatim>\<open>next\<close>, or
  an exception left it (out of the \<^verbatim>\<open>'end'\<close> listener, or as a rejection nobody handles).
\<close>

datatype callback_result = Responded | Delegated | Uncaught error

text \<open>The \<^verbatim>\<open>catch (error)\<close> block of the \<^verbatim>\<open>'end'\<close> listener.\<close>

definition catch_block :: "error \<Rightarrow> world \<Rightarrow> world \<times> callback_result" where
  "catch_block err w =
     (case onError err w of
        (w1, Failed e) \<Rightarrow> (w1, Uncaught e)
      | (w1, Done) \<Rightarrow> (w1\<lparr>res := end_response (writeHead 415 (res w1))\<rparr>, Responded))"

text \<open>
  The callback, applied to a request whose body has arrived. \<open>parse\<close> is \<^verbatim>\<open>JSON.parse\<close>
  (\<open>None\<close>: it throws a SyntaxError), \<open>has_next\<close> tells whether \<^verbatim>\<open>next\<close> is a function.
  Writing the head of a response that is already finished throws.
\<close>

definition webHookCallback ::
  "constants \<Rightarrow> options \<Rightarrow> handler list \<Rightarrow> (string \<Rightarrow> jsval option) \<Rightarrow> string option
     \<Rightarrow> http_request \<Rightarrow> bool \<Rightarrow> world \<Rightarrow> world \<times> callback_result" where
  "webHookCallback cs opts middleware parse webHookPath req has_next w =
     (let path = (case webHookPath of None \<Rightarrow> ''/'' | Some p \<Rightarrow> if p = [] then ''/'' else p) in
      if http_method req \<noteq> ''POST'' \<or> url req \<noteq> path
      then (if has_next then (w, Delegated)
            else (w\<lparr>res := end_response ((res w)\<lparr>statusCode := 403\<rparr>)\<rparr>, Responded))
      else
        (case parse (body_text req) of
           None \<Rightarrow> catch_block SyntaxError w
         | Some update \<Rightarrow>
             (case handleUpdate cs opts middleware update True w of
                Inl e \<Rightarrow> catch_block e w
              | Inr (w1, Done) \<Rightarrow>
                  (if \<not> finished (res w1)
                   then (w1\<lparr>res := end_response (writeHead 200 (res w1))\<rparr>, Responded)
                   else (w1, Responded))
              | Inr (w1, Failed e) \<Rightarrow>
                  (if finished (res w1) then (w1, Uncaught HeadersSent)
                   else (w1\<lparr>res := end_response (writeHead 500 (res w1))\<rparr>, Responded)))))"

section \<open>Polling loop: \<^verbatim>\<open>pollingLoop\<close>\<close>

text \<open>What one \<^verbatim>\<open>getUpdates\<close> promise settles with: a rejection, or the list of updates.\<close>

datatype fetch_result = FetchFailed | Fetched "jsval list"

text \<open>
  \<^verbatim>\<open>updates.map((update) => this.handleUpdate(update))\<close>: a synchronous throw ends the
  map; the dispatches started before it go on. The dispatches of one batch are run
  one after the other, in the order of the batch.
\<close>

fun map_updates ::
  "constants \<Rightarrow> options \<Rightarrow> handler list \<Rightarrow> jsval list \<Rightarrow> world
     \<Rightarrow> world \<times> (error + outcome list)" where
  "map_updates cs opts middleware [] w = (w, Inr [])"
| "map_updates cs opts middleware (update # updates) w =
     (case handleUpdate cs opts middleware update False w of
        Inl e \<Rightarrow> (w, Inl e)
      | Inr (w1, r) \<Rightarrow>
          (case map_updates cs opts middleware updates w1 of
             (w2, Inl e) \<Rightarrow> (w2, Inl e)
           | (w2, Inr rs) \<Rightarrow> (w2, Inr (r # rs))))"

text \<open>\<^verbatim>\<open>Promise.all\<close>: fulfilled when every promise is, rejected with a rejection otherwise.\<close>

fun promise_all :: "outcome list \<Rightarrow> outcome" where
  "promise_all [] = Done"
| "promise_all (Done # rs) = promise_all rs"
| "promise_all (Failed e # rs) = Failed e"

text \<open>The dispatch phase: the second \<^verbatim>\<open>then\<close> of the loop.\<close>

definition dispatch_phase ::
  "constants \<Rightarrow> options \<Rightarrow> handler list \<Rightarrow> jsval list \<Rightarrow> world \<Rightarrow> world \<times> outcome" where
  "dispatch_phase cs opts middleware updates w =
     (case map_updates cs opts middleware updates w of
        (w1, Inl e) \<Rightarrow> (w1, Failed e)
      | (w1, Inr rs) \<Rightarrow> (w1, promise_all rs))"

text \<open>The last \<^verbatim>\<open>catch\<close> of the loop.\<close>

definition polling_error :: "error \<Rightarrow> world \<Rightarrow> world" where
  "polling_error err w = w\<lparr>trace := trace w @ [PollingError err], started := False\<rparr>"

text \<open>The first \<^verbatim>\<open>catch\<close> of the loop: the line printed, then \<^verbatim>\<open>[]\<close> after one second.\<close>

definition fetched_updates :: "fetch_result \<Rightarrow> world \<Rightarrow> world \<times> jsval list" where
  "fetched_updates r w =
     (case r of
        FetchFailed \<Rightarrow> (w\<lparr>trace := trace w @ [NetworkError]\<rparr>, [])
      | Fetched updates \<Rightarrow> (w, updates))"

text \<open>
  \<^verbatim>\<open>pollingLoop()\<close>, run against the results that the successive \<^verbatim>\<open>getUpdates\<close> promises
  settle with; when they are used up, the last request stays pending. \<open>Inl\<close> is a
  synchronous throw of the call (the token check of \<^verbatim>\<open>sendRequest\<close>); inside
  \<^verbatim>\<open>.then(() => this.pollingLoop())\<close> it rejects the chain and reaches the last \<^verbatim>\<open>catch\<close>.
\<close>

fun pollingLoop ::
  "constants \<Rightarrow> options \<Rightarrow> handler list \<Rightarrow> fetch_result list \<Rightarrow> world \<Rightarrow> error + world" where
  "pollingLoop cs opts middleware [] w =
     (if \<not> started w then Inr w
      else
        (case getUpdates opts w of
           (w1, Threw e) \<Rightarrow> Inl e
         | (w1, _) \<Rightarrow> Inr w1))"
| "pollingLoop cs opts middleware (r # rs) w =
     (if \<not> started w then Inr w
      else
        (case getUpdates opts w of
           (w1, Threw e) \<Rightarrow> Inl e
         | (w1, _) \<Rightarrow>
             (case fetched_updates r w1 of
                (w2, updates) \<Rightarrow>
                  (case dispatch_phase cs opts middleware updates w2 of
                     (w3, Failed e) \<Rightarrow> Inr (polling_error e w3)
                   | (w3, Done) \<Rightarrow>
                       (case pollingLoop cs opts middleware rs w3 of
                          Inl e \<Rightarrow> Inr (polling_error e w3)
                        | Inr w4 \<Rightarrow> Inr w4)))))"

text \<open>\<^verbatim>\<open>startPolling(timeout, limit)\<close>\<close>

definition startPolling ::
  "constants \<Rightarrow> options \<Rightarrow> handler list \<Rightarrow> fetch_result list \<Rightarrow> jsval \<Rightarrow> jsval \<Rightarrow> world
     \<Rightarrow> error + world" where
  "startPolling cs opts middleware rs t l w =
     pollingLoop cs opts middleware rs
       (w\<lparr>started := True, timeout := js_or t (JNum 0), limit := js_or l (JNum 100)\<rparr>)"

section \<open>Observing a throw\<close>

text \<open>
  A run is orderly when it only appends to the trace, a run that completes has
  recorded no throw, and a run that fails with \<open>e\<close> has recorded the throw of \<open>e\<close> last
  and no other throw.
\<close>

fun is_raised :: "event \<Rightarrow> bool" where
  "is_raised (Raised e) = True"
| "is_raised ev = False"

definition throw_free :: "event list \<Rightarrow> bool" where
  "throw_free evs = list_all (\<lambda>ev. \<not> is_raised ev) evs"

fun settles :: "event list \<Rightarrow> outcome \<Rightarrow> bool" where
  "settles evs Done = throw_free evs"
| "settles evs (Failed e) = (evs \<noteq> [] \<and> last evs = Raised e \<and> throw_free (butlast evs))"

text \<open>The invariant of generators built from straight-line bodies.\<close>

definition orderly :: "gen \<Rightarrow> bool" where
  "orderly g = (\<forall>w. \<exists>evs. fst (g w) = w\<lparr>trace := trace w @ evs\<rparr> \<and> settles evs (snd (g w)))"

section \<open>Sample input\<close>

text \<open>
  Modelled from the spec: the constants module is not among the sources. These catalogs
  hold the event kinds that the spec's section on external interfaces names, in its
  order, and the three message subtypes of its glossary. They are concrete input for
  the instances below, nothing else depends on them.
\<close>

definition sample_constants :: constants where
  "sample_constants =
     \<lparr>updateTypes = [''message'', ''edited_message'', ''channel_post'', ''callback_query'',
        ''inline_query'', ''chosen_inline_result'', ''shipping_query'', ''pre_checkout_query''],
      messageSubTypes = [''photo'', ''location'', ''sticker'']\<rparr>"

definition sample_options :: options where
  "sample_options = \<lparr>token = Some ''t0k'', webHookAnswer = True\<rparr>"

text \<open>A message with a photo and a sticker, \<^verbatim>\<open>update_id\<close> 41.\<close>

definition sample_message :: jsval where
  "sample_message =
     JObj [(''update_id'', JNum 41),
           (''message'', JObj [(''sticker'', JObj []), (''photo'', JArr []),
                               (''chat'', JObj [(''id'', JNum 7)])])]"

text \<open>An update that carries both a message and a callback query.\<close>

definition sample_two_kinds :: jsval where
  "sample_two_kinds =
     JObj [(''update_id'', JNum 41),
           (''callback_query'', JObj [(''id'', JStr ''q1'')]),
           (''message'', JObj [(''photo'', JArr [])])]"

definition sample_context :: event_context where
  "sample_context =
     \<lparr>eventType = ''message'', eventSubType = Some ''sticker'', eventPayload = JObj [],
      chatId = JNum 7, viaResponse = False\<rparr>"

text \<open>Three handlers, the second of which throws after recording its entry.\<close>

definition sample_throwing_chain :: "stmt list list" where
  "sample_throwing_chain =
     [[Log ''a-enter'', YieldNext, Log ''a-exit''],
      [Log ''b-enter'', Throw (UserError ''boom''), YieldNext, Log ''b-exit''],
      [Log ''c-enter'', YieldNext, Log ''c-exit'']]"

text \<open>A stand-in for \<^verbatim>\<open>JSON.parse\<close> that knows two texts and rejects every other.\<close>

definition sample_parse :: "string \<Rightarrow> jsval option" where
  "sample_parse text =
     (if text = ''{}'' then Some (JObj [])
      else if text = ''null'' then Some JNull
      else None)"

text \<open>The state after \<^verbatim>\<open>startPolling()\<close> has set the flag and the defaults.\<close>

definition sample_polling_world :: world where
  "sample_polling_world = new_world\<lparr>started := True, timeout := JNum 0, limit := JNum 100\<rparr>"

section \<open>Properties of the normalizer\<close>

lemma type_step_subType: "subType (type_step update result key) = subType result"
  by (simp add: type_step_def)

lemma subtype_step_type:
  "type (subtype_step message result mt) = type result"
  "payload (subtype_step message result mt) = payload result"
  by (simp_all add: subtype_step_def)

lemma foldl_subtype_keeps:
  "type (foldl (subtype_step message) result mts) = type result"
  "payload (foldl (subtype_step message) result mts) = payload result"
  by (induction mts arbitrary: result) (simp_all add: subtype_step_type)

lemma foldl_type_keeps_subType:
  "subType (foldl (type_step update) result keys) = subType result"
  by (induction keys arbitrary: result) (simp_all add: type_step_subType)

lemma last_match_snoc:
  "last_match v (keys @ [key]) =
     (if js_truthy (js_get v key) then Some key else last_match v keys)"
  by (simp add: last_match_def matching_def)

lemma foldl_type_step:
  "type (foldl (type_step update) result keys) =
     (case last_match update keys of None \<Rightarrow> type result | Some k \<Rightarrow> Some k)"
proof (induction keys rule: rev_induct)
  case Nil
  show ?case by (simp add: last_match_def matching_def)
next
  case (snoc key keys)
  then show ?case by (simp add: last_match_snoc type_step_def)
qed

lemma foldl_type_step_payload:
  "payload (foldl (type_step update) result keys) =
     (case last_match update keys of None \<Rightarrow> payload result | Some k \<Rightarrow> js_get update k)"
proof (induction keys rule: rev_induct)
  case Nil
  show ?case by (simp add: last_match_def matching_def)
next
  case (snoc key keys)
  then show ?case by (simp add: last_match_snoc type_step_def)
qed

lemma foldl_subtype_step:
  "subType (foldl (subtype_step message) result mts) =
     (case last_match message mts of None \<Rightarrow> subType result | Some m \<Rightarrow> Some m)"
proof (induction mts rule: rev_induct)
  case Nil
  show ?case by (simp add: last_match_def matching_def)
next
  case (snoc mt mts)
  then show ?case by (simp add: last_match_snoc subtype_step_def)
qed

lemma last_match_None: "last_match v keys = None \<longleftrightarrow> matching v keys = []"
  by (simp add: last_match_def)

lemma last_match_Some:
  "matching v keys \<noteq> [] \<Longrightarrow> last_match v keys = Some (last (matching v keys))"
  by (simp add: last_match_def)

lemma last_match_truthy: "last_match v keys = Some k \<Longrightarrow> js_truthy (js_get v k) \<and> k \<in> set keys"
proof -
  assume h: "last_match v keys = Some k"
  then have ne: "matching v keys \<noteq> []" and k: "k = last (matching v keys)"
    by (auto simp: last_match_def split: if_splits)
  from ne k have "k \<in> set (matching v keys)" by simp
  then show ?thesis by (simp add: matching_def)
qed

lemma extractUpdate_fields:
  assumes "update \<noteq> JNull" and "update \<noteq> JUndefined"
  shows "\<exists>r. extractUpdate cs update = Inr r
           \<and> type r = last_match update (updateTypes cs)
           \<and> payload r = (case last_match update (updateTypes cs) of
                             None \<Rightarrow> JUndefined | Some k \<Rightarrow> js_get update k)
           \<and> subType r = (if js_truthy (js_get update ''message'')
                           then last_match (js_get update ''message'') (messageSubTypes cs)
                           else None)"
proof (cases "js_truthy (js_get update ''message'')")
  case True
  let ?r0 = "foldl (type_step update) empty_result (updateTypes cs)"
  let ?r = "foldl (subtype_step (js_get update ''message'')) ?r0 (messageSubTypes cs)"
  from assms True have eq: "extractUpdate cs update = Inr ?r"
    by (simp add: extractUpdate_def)
  have t: "type ?r = last_match update (updateTypes cs)"
    by (simp add: foldl_subtype_keeps foldl_type_step empty_result_def split: option.splits)
  have p: "payload ?r = (case last_match update (updateTypes cs) of
                           None \<Rightarrow> JUndefined | Some k \<Rightarrow> js_get update k)"
    by (simp add: foldl_subtype_keeps foldl_type_step_payload empty_result_def
        split: option.splits)
  have s: "subType ?r = last_match (js_get update ''message'') (messageSubTypes cs)"
    by (simp add: foldl_subtype_step foldl_type_keeps_subType empty_result_def
        split: option.splits)
  from eq t p s True show ?thesis by simp
next
  case False
  let ?r0 = "foldl (type_step update) empty_result (updateTypes cs)"
  from assms False have eq: "extractUpdate cs update = Inr ?r0"
    by (simp add: extractUpdate_def)
  have t: "type ?r0 = last_match update (updateTypes cs)"
    by (simp add: foldl_type_step empty_result_def split: option.splits)
  have p: "payload ?r0 = (case last_match update (updateTypes cs) of
                            None \<Rightarrow> JUndefined | Some k \<Rightarrow> js_get update k)"
    by (simp add: foldl_type_step_payload empty_result_def split: option.splits)
  have s: "subType ?r0 = None"
    by (simp add: foldl_type_keeps_subType empty_result_def)
  from eq t p s False show ?thesis by simp
qed

lemma matching_not_nullish:
  "matching update keys \<noteq> [] \<Longrightarrow> update \<noteq> JNull \<and> update \<noteq> JUndefined"
  by (auto simp: matching_def)

lemma handleUpdate_no_match:
  assumes "update \<noteq> JNull" and "update \<noteq> JUndefined"
    and "matching update (updateTypes cs) = []"
  shows "handleUpdate cs opts middleware update webHookResponse w = Inl UndefinedUpdateType"
proof -
  from extractUpdate_fields [OF assms(1,2), of cs] obtain r where
    r: "extractUpdate cs update = Inr r" "type r = last_match update (updateTypes cs)"
    by blast
  from assms(3) r(2) have "type r = None" by (simp add: last_match_def)
  with r(1) show ?thesis by (simp add: handleUpdate_def)
qed

section \<open>Properties of the composer\<close>

lemma compose_loop_take:
  "i \<le> length middleware \<Longrightarrow>
   compose_loop middleware i this next = foldr (\<lambda>h k. h this k) (take i middleware) next"
proof (induction i arbitrary: "next")
  case 0
  show ?case by simp
next
  case (Suc i)
  then have lt: "i < length middleware" by simp
  have "take (Suc i) middleware = take i middleware @ [middleware ! i]"
    using lt by (simp add: take_Suc_conv_app_nth)
  with Suc show ?case by simp
qed

lemma compose_foldr:
  "compose middleware this next =
     foldr (\<lambda>h k. h this k) middleware (case next of None \<Rightarrow> noop | Some n \<Rightarrow> n)"
  by (simp add: compose_def compose_loop_take)

lemma compose_Nil: "compose [] this None = noop"
  by (simp add: compose_foldr)

lemma compose_Cons:
  "compose (h # hs) this next = h this (compose hs this next)"
  by (simp add: compose_foldr)

lemma recorder_run:
  "recorder name this next w =
     (case next (w\<lparr>trace := trace w @ [Logged (name @ ''-enter'')]\<rparr>) of
        (w1, Done) \<Rightarrow> (w1\<lparr>trace := trace w1 @ [Logged (name @ ''-exit'')]\<rparr>, Done)
      | (w1, Failed e) \<Rightarrow> (w1, Failed e))"
  by (simp add: recorder_def handler_of_def)

lemma compose_recorders:
  "compose (map recorder names) this None w =
     (w\<lparr>trace := trace w @ map (\<lambda>n. Logged (n @ ''-enter'')) names
                         @ map (\<lambda>n. Logged (n @ ''-exit'')) (rev names)\<rparr>, Done)"
proof (induction names arbitrary: w)
  case Nil
  show ?case by (simp add: compose_Nil noop_def)
next
  case (Cons n names)
  let ?w1 = "w\<lparr>trace := trace w @ [Logged (n @ ''-enter'')]\<rparr>"
  have "compose (map recorder (n # names)) this None w =
      recorder n this (compose (map recorder names) this None) w"
    by (simp add: compose_Cons)
  also have "\<dots> = (case compose (map recorder names) this None ?w1 of
        (w1, Done) \<Rightarrow> (w1\<lparr>trace := trace w1 @ [Logged (n @ ''-exit'')]\<rparr>, Done)
      | (w1, Failed e) \<Rightarrow> (w1, Failed e))"
    by (rule recorder_run)
  finally show ?case by (simp add: Cons [of ?w1])
qed

lemma throw_free_append: "throw_free (xs @ ys) \<longleftrightarrow> throw_free xs \<and> throw_free ys"
  by (simp add: throw_free_def)

lemma settles_prepend: "throw_free xs \<Longrightarrow> settles ys r \<Longrightarrow> settles (xs @ ys) r"
  by (cases r) (auto simp: throw_free_append butlast_append)

lemma orderly_noop: "orderly noop"
  unfolding orderly_def noop_def
proof
  fix w :: world
  have "fst (w, Done) = w\<lparr>trace := trace w @ []\<rparr> \<and> settles [] (snd (w, Done))"
    by (simp add: throw_free_def)
  then show "\<exists>evs. fst (w, Done) = w\<lparr>trace := trace w @ evs\<rparr> \<and> settles evs (snd (w, Done))"
    by blast
qed

lemma orderlyD:
  "orderly g \<Longrightarrow> \<exists>evs. fst (g w) = w\<lparr>trace := trace w @ evs\<rparr> \<and> settles evs (snd (g w))"
  by (simp add: orderly_def)

lemma run_body_orderly_at:
  "orderly next \<Longrightarrow>
   \<exists>evs. fst (run_body stmts next w) = w\<lparr>trace := trace w @ evs\<rparr>
        \<and> settles evs (snd (run_body stmts next w))"
proof (induction stmts "next" w rule: run_body.induct)
  case (1 "next" w)
  have "fst (run_body [] next w) = w\<lparr>trace := trace w @ []\<rparr> \<and> settles [] (snd (run_body [] next w))"
    by (simp add: throw_free_def)
  then show ?case by blast
next
  case (2 line rest "next" w)
  let ?w1 = "w\<lparr>trace := trace w @ [Logged line]\<rparr>"
  from 2 obtain evs where
    e: "fst (run_body rest next ?w1) = ?w1\<lparr>trace := trace ?w1 @ evs\<rparr>"
       "settles evs (snd (run_body rest next ?w1))"
    by blast
  have tf: "throw_free [Logged line]" by (simp add: throw_free_def)
  have "fst (run_body (Log line # rest) next w) = w\<lparr>trace := trace w @ ([Logged line] @ evs)\<rparr>"
    using e(1) by simp
  moreover have "settles ([Logged line] @ evs) (snd (run_body (Log line # rest) next w))"
    using settles_prepend [OF tf e(2)] by simp
  ultimately show ?case by blast
next
  case (3 rest "next" w)
  from orderlyD [OF 3(2), of w] obtain evs where
    n: "fst (next w) = w\<lparr>trace := trace w @ evs\<rparr>" "settles evs (snd (next w))"
    by blast
  show ?case
  proof (cases "snd (next w)")
    case Done
    let ?w1 = "fst (next w)"
    have nw: "next w = (?w1, Done)" using Done by (simp add: prod_eq_iff)
    from 3(1) [OF nw [symmetric] refl orderly_noop] obtain evs2 where
      e: "fst (run_body rest noop ?w1) = ?w1\<lparr>trace := trace ?w1 @ evs2\<rparr>"
         "settles evs2 (snd (run_body rest noop ?w1))"
      by blast
    from n(2) Done have tf: "throw_free evs" by simp
    have rb: "run_body (YieldNext # rest) next w = run_body rest noop ?w1"
      using Done by (cases "next w") simp
    have "fst (run_body (YieldNext # rest) next w) = w\<lparr>trace := trace w @ (evs @ evs2)\<rparr>"
      unfolding rb using e(1) n(1) by simp
    moreover have "settles (evs @ evs2) (snd (run_body (YieldNext # rest) next w))"
      unfolding rb using settles_prepend [OF tf e(2)] by simp
    ultimately show ?thesis by blast
  next
    case (Failed e)
    have "run_body (YieldNext # rest) next w = next w"
      using Failed by (cases "next w") simp
    with n show ?thesis by auto
  qed
next
  case (4 e rest "next" w)
  have "fst (run_body (Throw e # rest) next w) = w\<lparr>trace := trace w @ [Raised e]\<rparr>
      \<and> settles [Raised e] (snd (run_body (Throw e # rest) next w))"
    by (simp add: throw_free_def)
  then show ?case by blast
qed

lemma run_body_orderly: "orderly next \<Longrightarrow> orderly (run_body stmts next)"
  unfolding orderly_def [of "run_body stmts next"] using run_body_orderly_at by blast

lemma compose_bodies_orderly: "orderly (compose (map handler_of bodies) this None)"
proof (induction bodies)
  case Nil
  show ?case by (simp add: compose_Nil orderly_noop)
next
  case (Cons b bodies)
  have "compose (map handler_of (b # bodies)) this None =
      run_body b (compose (map handler_of bodies) this None)"
    by (simp add: compose_Cons handler_of_def)
  with Cons show ?case by (simp add: run_body_orderly)
qed

lemma settles_Raised:
  assumes "settles evs r" and "Raised e \<in> set evs"
  shows "r = Failed e \<and> last evs = Raised e \<and> throw_free (butlast evs)"
proof (cases r)
  case Done
  with assms show ?thesis by (auto simp: throw_free_def list_all_iff)
next
  case (Failed e')
  with assms(1) have ne: "evs \<noteq> []" and l: "last evs = Raised e'" and tf: "throw_free (butlast evs)"
    by simp_all
  from ne have "evs = butlast evs @ [last evs]" by simp
  with assms(2) have "Raised e \<in> set (butlast evs) \<or> Raised e = last evs"
    by (metis Un_iff empty_iff empty_set set_ConsD set_append)
  moreover from tf have "Raised e \<notin> set (butlast evs)" by (auto simp: throw_free_def list_all_iff)
  ultimately have "e = e'" using l by simp
  with Failed l tf show ?thesis by simp
qed

section \<open>Claims on the composer\<close>

text \<open>
  C3. For the chain \<open>[a, b, c]\<close> of handlers that each record their entry, invoke their
  continuation and record their exit, a run of the composed handler completes with the
  trace a-enter, b-enter, c-enter, c-exit, b-exit, a-exit appended: entries in the
  order of registration, exits in reverse.
\<close>

theorem compose_onion_order:
  "compose [recorder a, recorder b, recorder c] this None w =
     (w\<lparr>trace := trace w @
        [Logged (a @ ''-enter''), Logged (b @ ''-enter''), Logged (c @ ''-enter''),
         Logged (c @ ''-exit''), Logged (b @ ''-exit''), Logged (a @ ''-exit'')]\<rparr>, Done)"
  using compose_recorders [of "[a, b, c]" this w] by simp

theorem compose_onion_order_witness:
  "compose [recorder ''a'', recorder ''b'', recorder ''c''] sample_context None new_world =
     (new_world\<lparr>trace :=
        [Logged ''a-enter'', Logged ''b-enter'', Logged ''c-enter'',
         Logged ''c-exit'', Logged ''b-exit'', Logged ''a-exit'']\<rparr>, Done)"
  using compose_onion_order [of "''a''" "''b''" "''c''" sample_context new_world]
  by (simp add: new_world_def)

text \<open>
  C9. In the chain \<open>[a, b, c]\<close>, when \<open>b\<close> records its entry and its exit and never
  invokes its continuation, the run completes without an error and the trace is
  a-enter, b-enter, b-exit, a-exit, whatever handler \<open>c\<close> is: \<open>c\<close> never runs. Composing
  the empty chain gives the no-op continuation, or the continuation passed in.
\<close>

theorem compose_short_circuit:
  "compose [recorder a, stopper b, c] this None w =
     (w\<lparr>trace := trace w @
        [Logged (a @ ''-enter''), Logged (b @ ''-enter''),
         Logged (b @ ''-exit''), Logged (a @ ''-exit'')]\<rparr>, Done)
   \<and> compose [] this None = noop
   \<and> compose [] this (Some next) = next
   \<and> compose [] this None w = (w, Done)"
  by (simp add: compose_Cons compose_foldr recorder_def stopper_def handler_of_def noop_def)

theorem compose_short_circuit_witness:
  "compose [recorder ''a'', stopper ''b'', handler_of [Throw (UserError ''boom'')]]
     sample_context None new_world =
     (new_world\<lparr>trace :=
        [Logged ''a-enter'', Logged ''b-enter'', Logged ''b-exit'', Logged ''a-exit'']\<rparr>, Done)"
  using compose_short_circuit [of "''a''" "''b''" "handler_of [Throw (UserError ''boom'')]"
      sample_context new_world noop]
  by (simp add: new_world_def)

text \<open>
  C6. For every chain of handlers with straight-line bodies (no \<^verbatim>\<open>try\<close> of their own),
  a run of the composed handler only appends to the trace; if a handler throws \<open>e\<close>
  during the run, the run fails with exactly \<open>e\<close>, the throw is the last thing that
  happened and it is the only throw; and a run fails only with an error that a handler
  threw. The composer recovers nothing and adds nothing: for handlers of any kind, the
  composed run is the run of the first handler on the composition of the others.
\<close>

theorem compose_propagates_throw:
  assumes "compose (map handler_of bodies) this None w = (w', r)"
  shows "\<exists>evs. w' = w\<lparr>trace := trace w @ evs\<rparr>
           \<and> (\<forall>e. Raised e \<in> set evs \<longrightarrow>
                 r = Failed e \<and> last evs = Raised e \<and> throw_free (butlast evs))
           \<and> (\<forall>e. r = Failed e \<longrightarrow> Raised e \<in> set evs)
           \<and> compose (h # hs) this None = h this (compose hs this None)"
proof -
  from orderlyD [OF compose_bodies_orderly, of bodies this w] assms obtain evs where
    e: "w' = w\<lparr>trace := trace w @ evs\<rparr>" "settles evs r"
    by auto
  have c: "compose (h # hs) this None = h this (compose hs this None)"
    by (rule compose_Cons)
  have a: "r = Failed e \<and> last evs = Raised e \<and> throw_free (butlast evs)"
    if "Raised e \<in> set evs" for e
    using settles_Raised [OF e(2) that] .
  have b: "Raised e \<in> set evs" if "r = Failed e" for e
  proof -
    from e(2) that have "evs \<noteq> []" "last evs = Raised e" by simp_all
    then show ?thesis by (metis last_in_set)
  qed
  from e(1) a b c show ?thesis by blast
qed

theorem compose_propagates_throw_witness:
  "\<exists>evs. compose (map handler_of sample_throwing_chain) sample_context None new_world =
           (new_world\<lparr>trace := trace new_world @ evs\<rparr>, Failed (UserError ''boom''))
        \<and> evs = [Logged ''a-enter'', Logged ''b-enter'', Raised (UserError ''boom'')]
        \<and> last evs = Raised (UserError ''boom'')
        \<and> throw_free (butlast evs)"
proof -
  have run: "compose (map handler_of sample_throwing_chain) sample_context None new_world =
      (new_world\<lparr>trace := [Logged ''a-enter'', Logged ''b-enter'', Raised (UserError ''boom'')]\<rparr>,
       Failed (UserError ''boom''))"
    by (simp add: sample_throwing_chain_def compose_Cons compose_Nil handler_of_def noop_def
        new_world_def)
  from compose_propagates_throw [OF run] obtain evs where
    e: "new_world\<lparr>trace := [Logged ''a-enter'', Logged ''b-enter'', Raised (UserError ''boom'')]\<rparr>
          = new_world\<lparr>trace := trace new_world @ evs\<rparr>"
       "\<forall>e. Raised e \<in> set evs \<longrightarrow>
          Failed (UserError ''boom'') = Failed e \<and> last evs = Raised e \<and> throw_free (butlast evs)"
       "\<forall>e. Failed (UserError ''boom'') = Failed e \<longrightarrow> Raised e \<in> set evs"
    by blast
  from e(1) have evs: "evs = [Logged ''a-enter'', Logged ''b-enter'', Raised (UserError ''boom'')]"
    by (simp add: new_world_def)
  from e(3) have "Raised (UserError ''boom'') \<in> set evs" by simp
  with e(2) have "last evs = Raised (UserError ''boom'') \<and> throw_free (butlast evs)" by blast
  with run evs show ?thesis by (simp add: new_world_def)
qed

section \<open>Claims on the normalizer\<close>

text \<open>
  C1. For every raw event that holds recognized top-level keys, two or more in
  particular, \<^verbatim>\<open>extractUpdate\<close> takes the type and the payload from the key that comes
  last in the order of the catalog among those the event holds (last match wins); and
  when the resolved kind is the generic message kind, the subtype is the last matching
  entry of the message-subtype catalog (none when no entry matches). A key is held when
  the program's test \<^verbatim>\<open>if (update[key])\<close> finds it, which \<open>matching\<close> lists in catalog
  order.
\<close>

theorem extractUpdate_last_match_wins:
  assumes "matching update (updateTypes cs) \<noteq> []"
  shows "\<exists>r. extractUpdate cs update = Inr r
           \<and> type r = Some (last (matching update (updateTypes cs)))
           \<and> payload r = js_get update (last (matching update (updateTypes cs)))
           \<and> (type r = Some ''message'' \<longrightarrow>
                subType r = last_match (js_get update ''message'') (messageSubTypes cs))"
proof -
  from matching_not_nullish [OF assms] have nn: "update \<noteq> JNull" "update \<noteq> JUndefined"
    by simp_all
  from extractUpdate_fields [OF nn, of cs] obtain r where
    r: "extractUpdate cs update = Inr r"
       "type r = last_match update (updateTypes cs)"
       "payload r = (case last_match update (updateTypes cs) of
                       None \<Rightarrow> JUndefined | Some k \<Rightarrow> js_get update k)"
       "subType r = (if js_truthy (js_get update ''message'')
                     then last_match (js_get update ''message'') (messageSubTypes cs)
                     else None)"
    by blast
  have lm: "last_match update (updateTypes cs) = Some (last (matching update (updateTypes cs)))"
    using assms by (rule last_match_Some)
  have sub: "type r = Some ''message'' \<Longrightarrow>
      subType r = last_match (js_get update ''message'') (messageSubTypes cs)"
  proof -
    assume "type r = Some ''message''"
    with r(2) have "last_match update (updateTypes cs) = Some ''message''" by simp
    then have "js_truthy (js_get update ''message'')" by (simp add: last_match_truthy)
    with r(4) show ?thesis by simp
  qed
  from r(1) r(2) r(3) lm sub show ?thesis by simp
qed

theorem extractUpdate_last_match_wins_witness:
  "(\<exists>r. extractUpdate sample_constants sample_two_kinds = Inr r
        \<and> type r = Some ''callback_query''
        \<and> payload r = JObj [(''id'', JStr ''q1'')])
   \<and> (\<exists>r. extractUpdate sample_constants sample_message = Inr r
        \<and> type r = Some ''message''
        \<and> subType r = Some ''sticker'')"
  using extractUpdate_last_match_wins [of sample_two_kinds sample_constants]
        extractUpdate_last_match_wins [of sample_message sample_constants]
  by (auto simp: matching_def last_match_def sample_constants_def sample_two_kinds_def
      sample_message_def)

text \<open>
  C8. For every raw event (a JSON object) in which none of the recognized top-level
  keys is present, \<^verbatim>\<open>handleUpdate\<close> fails with the undefined-update-type error. The
  failure is the synchronous throw \<open>Inl\<close>: no promise exists, no context was built, no
  middleware ran and the state is the one before the call.
\<close>

theorem handleUpdate_unrecognized_fails:
  assumes "\<forall>key \<in> set (updateTypes cs). key \<notin> fst ` set kvs"
  shows "handleUpdate cs opts middleware (JObj kvs) webHookResponse w = Inl UndefinedUpdateType"
proof -
  have "js_get (JObj kvs) key = JUndefined" if "key \<in> set (updateTypes cs)" for key
  proof -
    from that assms have "key \<notin> fst ` set kvs" by blast
    then have "map_of kvs key = None" by (simp add: map_of_eq_None_iff)
    then show ?thesis by simp
  qed
  then have "matching (JObj kvs) (updateTypes cs) = []"
    by (auto simp: matching_def filter_empty_conv)
  then show ?thesis by (simp add: handleUpdate_no_match)
qed

theorem handleUpdate_unrecognized_fails_witness:
  "handleUpdate sample_constants sample_options [recorder ''a'']
     (JObj [(''update_id'', JNum 5), (''poll'', JObj [(''id'', JStr ''p'')])]) False new_world
   = Inl UndefinedUpdateType"
  using handleUpdate_unrecognized_fails [of sample_constants
      "[(''update_id'', JNum 5), (''poll'', JObj [(''id'', JStr ''p'')])]"
      sample_options "[recorder ''a'']" False new_world]
  by (simp add: sample_constants_def)

text \<open>
  C10. Presence of a key is decided by truthiness: when every recognized top-level key
  of a raw event reads as a falsy value (\<^verbatim>\<open>0\<close>, the empty string, \<^verbatim>\<open>false\<close>, \<^verbatim>\<open>null\<close>, or
  nothing at all), \<^verbatim>\<open>extractUpdate\<close> resolves no type and \<^verbatim>\<open>handleUpdate\<close> fails with
  the undefined-update-type error; and the subtype, when there is one, is a key of the
  message that reads as a truthy value, the last such key of the subtype catalog.
\<close>

theorem falsy_keys_are_absent:
  assumes "update \<noteq> JNull" and "update \<noteq> JUndefined"
  shows "((\<forall>key \<in> set (updateTypes cs).
             js_get update key \<in> {JUndefined, JNull, JBool False, JNum 0, JStr []}) \<longrightarrow>
            (\<exists>r. extractUpdate cs update = Inr r \<and> type r = None \<and> payload r = JUndefined)
            \<and> handleUpdate cs opts middleware update webHookResponse w = Inl UndefinedUpdateType)
         \<and> (\<exists>r. extractUpdate cs update = Inr r
               \<and> subType r =
                   (if js_truthy (js_get update ''message'')
                    then last_match (js_get update ''message'') (messageSubTypes cs) else None)
               \<and> (\<forall>m. subType r = Some m \<longrightarrow>
                     js_truthy (js_get (js_get update ''message'') m)))"
proof -
  from extractUpdate_fields [OF assms, of cs] obtain r where
    r: "extractUpdate cs update = Inr r"
       "type r = last_match update (updateTypes cs)"
       "payload r = (case last_match update (updateTypes cs) of
                       None \<Rightarrow> JUndefined | Some k \<Rightarrow> js_get update k)"
       "subType r = (if js_truthy (js_get update ''message'')
                     then last_match (js_get update ''message'') (messageSubTypes cs)
                     else None)"
    by blast
  have first: "(\<exists>r. extractUpdate cs update = Inr r \<and> type r = None \<and> payload r = JUndefined)
      \<and> handleUpdate cs opts middleware update webHookResponse w = Inl UndefinedUpdateType"
    if falsy: "\<forall>key \<in> set (updateTypes cs).
        js_get update key \<in> {JUndefined, JNull, JBool False, JNum 0, JStr []}"
  proof -
    have "\<not> js_truthy (js_get update key)" if "key \<in> set (updateTypes cs)" for key
      using falsy that by fastforce
    then have none: "matching update (updateTypes cs) = []"
      by (auto simp: matching_def filter_empty_conv)
    then have "last_match update (updateTypes cs) = None" by (simp add: last_match_def)
    with r(1) r(2) r(3) have "\<exists>r. extractUpdate cs update = Inr r \<and> type r = None
        \<and> payload r = JUndefined"
      by simp
    moreover from assms none
    have "handleUpdate cs opts middleware update webHookResponse w = Inl UndefinedUpdateType"
      by (rule handleUpdate_no_match)
    ultimately show ?thesis by simp
  qed
  have second: "js_truthy (js_get (js_get update ''message'') m)" if "subType r = Some m" for m
  proof -
    from that r(4) have "last_match (js_get update ''message'') (messageSubTypes cs) = Some m"
      by (simp split: if_splits)
    then show ?thesis by (simp add: last_match_truthy)
  qed
  from first r(1) r(4) second show ?thesis by auto
qed

theorem falsy_keys_are_absent_witness:
  "handleUpdate sample_constants sample_options [recorder ''a'']
     (JObj [(''update_id'', JNum 5), (''message'', JNum 0), (''edited_message'', JStr []),
            (''callback_query'', JBool False), (''inline_query'', JNull)]) False new_world
     = Inl UndefinedUpdateType
   \<and> (\<exists>r. extractUpdate sample_constants
             (JObj [(''message'', JObj [(''sticker'', JNull), (''photo'', JArr []),
                                        (''location'', JNum 0)])]) = Inr r
          \<and> subType r = Some ''photo'')"
  using falsy_keys_are_absent [of
      "JObj [(''update_id'', JNum 5), (''message'', JNum 0), (''edited_message'', JStr []),
             (''callback_query'', JBool False), (''inline_query'', JNull)]"
      sample_constants sample_options "[recorder ''a'']" False new_world]
    falsy_keys_are_absent [of
      "JObj [(''message'', JObj [(''sticker'', JNull), (''photo'', JArr []),
                                 (''location'', JNum 0)])]"
      sample_constants sample_options "[]" False new_world]
  by (auto simp: sample_constants_def last_match_def matching_def)

section \<open>Properties of the dispatcher\<close>

lemma handleUpdate_Done:
  assumes "handleUpdate cs opts middleware rawUpdate webHookResponse w = Inr (w', Done)"
  shows "\<exists>this w1. compose middleware this None w = (w1, Done)
           \<and> w' = w1\<lparr>offset := js_plus_one (js_get rawUpdate ''update_id'')\<rparr>"
proof (cases "extractUpdate cs rawUpdate")
  case (Inl e)
  with assms show ?thesis by (simp add: handleUpdate_def)
next
  case (Inr update)
  show ?thesis
  proof (cases "type update")
    case None
    with Inr assms show ?thesis by (simp add: handleUpdate_def)
  next
    case (Some t)
    let ?ctx = "build_context opts t update webHookResponse"
    from Inr Some assms have ne: "t \<noteq> []"
      by (auto simp: handleUpdate_def split: if_splits)
    obtain w1 r where run: "compose middleware ?ctx None w = (w1, r)"
      by (cases "compose middleware ?ctx None w")
    show ?thesis
    proof (cases r)
      case Done
      with Inr Some ne run assms
      have "w' = w1\<lparr>offset := js_plus_one (js_get rawUpdate ''update_id'')\<rparr>"
        by (simp add: handleUpdate_def)
      with run Done show ?thesis by blast
    next
      case (Failed e)
      with Inr Some ne run assms show ?thesis
        by (simp add: handleUpdate_def onError_def)
    qed
  qed
qed

lemma handleUpdate_Failed:
  assumes "handleUpdate cs opts middleware rawUpdate webHookResponse w = Inr (w', Failed e)"
  shows "\<exists>ctx w1. compose middleware ctx None w = (w1, Failed e)
           \<and> w' = w1\<lparr>trace := trace w1 @ [Reported e]\<rparr>"
proof (cases "extractUpdate cs rawUpdate")
  case (Inl e')
  with assms show ?thesis by (simp add: handleUpdate_def)
next
  case (Inr update)
  show ?thesis
  proof (cases "type update")
    case None
    with Inr assms show ?thesis by (simp add: handleUpdate_def)
  next
    case (Some t)
    let ?ctx = "build_context opts t update webHookResponse"
    from Inr Some assms have ne: "t \<noteq> []"
      by (auto simp: handleUpdate_def split: if_splits)
    obtain w1 r where run: "compose middleware ?ctx None w = (w1, r)"
      by (cases "compose middleware ?ctx None w")
    show ?thesis
    proof (cases r)
      case Done
      with Inr Some ne run assms show ?thesis by (simp add: handleUpdate_def)
    next
      case (Failed e')
      with Inr Some ne run assms
      have "e' = e" and "w' = w1\<lparr>trace := trace w1 @ [Reported e]\<rparr>"
        by (auto simp: handleUpdate_def onError_def)
      with run Failed show ?thesis by blast
    qed
  qed
qed

section \<open>Claim on the polling cursor\<close>

text \<open>
  C4. For every raw update whose dispatch completes successfully (the promise of
  \<^verbatim>\<open>handleUpdate\<close> is fulfilled), the middleware chain has completed and the polling
  offset is then set to the update's \<^verbatim>\<open>update_id\<close> plus one, for an \<^verbatim>\<open>update_id\<close> that is
  an integer in the range where the arithmetic of numbers is exact; after the
  dispatch of an update with \<^verbatim>\<open>update_id\<close> 41 the offset is 42.
\<close>

theorem handleUpdate_advances_offset:
  assumes "handleUpdate cs opts middleware rawUpdate webHookResponse w = Inr (w', Done)"
    and "js_get rawUpdate ''update_id'' = JNum n"
    and "- (2 ^ 53) \<le> n" and "n < 2 ^ 53"
  shows "offset w' = ONum (n + 1)
         \<and> (\<exists>this w1. compose middleware this None w = (w1, Done)
                \<and> w' = w1\<lparr>offset := ONum (n + 1)\<rparr>)"
proof -
  from handleUpdate_Done [OF assms(1)] obtain this w1 where
    h: "compose middleware this None w = (w1, Done)"
       "w' = w1\<lparr>offset := js_plus_one (js_get rawUpdate ''update_id'')\<rparr>"
    by blast
  from assms(2-4) have "js_plus_one (js_get rawUpdate ''update_id'') = ONum (n + 1)"
    by simp
  with h show ?thesis by auto
qed

theorem handleUpdate_advances_offset_witness:
  "\<exists>w'. handleUpdate sample_constants sample_options [recorder ''a''] sample_message False
           new_world = Inr (w', Done)
        \<and> offset w' = ONum 42"
proof -
  have run: "handleUpdate sample_constants sample_options [recorder ''a''] sample_message False
      new_world =
      Inr (new_world\<lparr>trace := [Logged ''a-enter'', Logged ''a-exit''], offset := ONum 42\<rparr>, Done)"
    by (simp add: handleUpdate_def extractUpdate_def sample_constants_def sample_message_def
        type_step_def subtype_step_def empty_result_def compose_Cons compose_Nil recorder_run
        noop_def new_world_def)
  have id: "js_get sample_message ''update_id'' = JNum 41"
    by (simp add: sample_message_def)
  from handleUpdate_advances_offset [OF run id] have
    "offset (new_world\<lparr>trace := [Logged ''a-enter'', Logged ''a-exit''], offset := ONum 42\<rparr>)
       = ONum (41 + 1)"
    by simp
  with run show ?thesis by simp
qed

section \<open>Properties of the remote invoker\<close>

lemma sendRequest_answered:
  "\<not> finished (res w) \<Longrightarrow> \<not> isFileRequest options \<Longrightarrow>
   sendRequest opts method options True w =
     (w\<lparr>res := (res w)\<lparr>
         headers := AList.update ''Content-Type'' ''application/json'' (headers (res w)),
         body := Some (AList.update ''method'' (JStr method) options),
         finished := True\<rparr>\<rparr>, Answered)"
  by (simp add: sendRequest_def)

lemma sendRequest_network:
  "finished (res w) \<or> isFileRequest options \<or> \<not> response \<Longrightarrow>
   sendRequest opts method options response w = network_call opts (Call method options) w"
  by (auto simp: sendRequest_def)

lemma network_call_res: "res (fst (network_call opts rq w)) = res w"
  by (simp add: network_call_def)

lemma network_call_not_Answered: "snd (network_call opts rq w) \<noteq> Answered"
  by (simp add: network_call_def)

lemma proxy_finished_stays:
  "finished (res w) \<Longrightarrow>
   finished (res (fst (proxy_sendRequest opts wr method options w)))
   \<and> snd (proxy_sendRequest opts wr method options w) \<noteq> Answered"
  by (simp add: proxy_sendRequest_def sendRequest_network network_call_res
      network_call_not_Answered)

lemma proxy_Answered_finishes:
  "snd (proxy_sendRequest opts wr method options w) = Answered \<Longrightarrow>
   finished (res (fst (proxy_sendRequest opts wr method options w)))"
  by (auto simp: proxy_sendRequest_def sendRequest_def network_call_def split: if_splits)

lemma proxy_calls_snd:
  "snd (proxy_calls opts wr ((method, options) # calls) w) =
     snd (proxy_sendRequest opts wr method options w)
       # snd (proxy_calls opts wr calls (fst (proxy_sendRequest opts wr method options w)))"
  by (simp split: prod.splits)

lemma proxy_calls_finished:
  "finished (res w) \<Longrightarrow> Answered \<notin> set (snd (proxy_calls opts wr calls w))"
proof (induction calls arbitrary: w)
  case Nil
  show ?case by simp
next
  case (Cons c calls)
  obtain m ps where c: "c = (m, ps)" by (cases c)
  obtain w1 r where s: "proxy_sendRequest opts wr m ps w = (w1, r)"
    by (cases "proxy_sendRequest opts wr m ps w")
  from proxy_finished_stays [OF Cons.prems, of opts wr m ps] s
  have f: "finished (res w1)" and r: "r \<noteq> Answered" by simp_all
  from Cons.IH [OF f] r show ?case
    unfolding c proxy_calls_snd by (simp add: s)
qed

lemma proxy_calls_at_most_one:
  "length (filter (\<lambda>r. r = Answered) (snd (proxy_calls opts wr calls w))) \<le> 1"
proof (induction calls arbitrary: w)
  case Nil
  show ?case by simp
next
  case (Cons c calls)
  obtain m ps where c: "c = (m, ps)" by (cases c)
  obtain w1 r where s: "proxy_sendRequest opts wr m ps w = (w1, r)"
    by (cases "proxy_sendRequest opts wr m ps w")
  show ?case
  proof (cases "r = Answered")
    case True
    with proxy_Answered_finishes [of opts wr m ps w] s
    have "finished (res w1)" by simp
    then have "Answered \<notin> set (snd (proxy_calls opts wr calls w1))"
      by (rule proxy_calls_finished)
    then have "filter (\<lambda>r. r = Answered) (snd (proxy_calls opts wr calls w1)) = []"
      by (auto simp: filter_empty_conv)
    with True show ?thesis unfolding c proxy_calls_snd by (simp add: s)
  next
    case False
    with Cons.IH [of w1] show ?thesis unfolding c proxy_calls_snd by (simp add: s)
  qed
qed

lemma proxy_calls_fst:
  "fst (proxy_calls opts wr ((m, ps) # calls) w) =
     fst (proxy_calls opts wr calls (fst (proxy_sendRequest opts wr m ps w)))"
  by (simp split: prod.splits)

lemma proxy_calls_append:
  "snd (proxy_calls opts wr (xs @ ys) w) =
     snd (proxy_calls opts wr xs w) @ snd (proxy_calls opts wr ys (fst (proxy_calls opts wr xs w)))"
proof (induction xs arbitrary: w)
  case Nil
  show ?case by simp
next
  case (Cons c xs)
  obtain m ps where c: "c = (m, ps)" by (cases c)
  show ?case
    unfolding c append_Cons proxy_calls_snd proxy_calls_fst by (simp add: Cons)
qed

lemma proxy_file_call:
  "has_token opts \<Longrightarrow> isFileRequest ps \<or> finished (res w) \<Longrightarrow>
   proxy_sendRequest opts wr m ps w = (w\<lparr>network := network w @ [Call m ps]\<rparr>, Invoked)"
  by (auto simp: proxy_sendRequest_def sendRequest_def network_call_def)

lemma proxy_calls_files:
  "has_token opts \<Longrightarrow> list_all (\<lambda>c. isFileRequest (snd c)) calls \<or> finished (res w) \<Longrightarrow>
   snd (proxy_calls opts wr calls w) = replicate (length calls) Invoked
   \<and> res (fst (proxy_calls opts wr calls w)) = res w"
proof (induction calls arbitrary: w)
  case Nil
  show ?case by simp
next
  case (Cons c calls)
  obtain m ps where c: "c = (m, ps)" by (cases c)
  let ?w1 = "w\<lparr>network := network w @ [Call m ps]\<rparr>"
  from Cons.prems c have one: "proxy_sendRequest opts wr m ps w = (?w1, Invoked)"
    by (auto intro: proxy_file_call)
  from Cons.prems have "list_all (\<lambda>c. isFileRequest (snd c)) calls \<or> finished (res ?w1)"
    by auto
  from Cons.IH [OF Cons.prems(1) this] show ?case
    unfolding c proxy_calls_snd proxy_calls_fst by (simp add: one)
qed

lemma first_plain_call_answered:
  assumes "webHookAnswer opts" and "has_token opts" and "\<not> finished (res w)"
    and "list_all (\<lambda>c. isFileRequest (snd c)) earlier" and "\<not> isFileRequest ps"
  shows "snd (proxy_calls opts True (earlier @ (m, ps) # later) w) =
     replicate (length earlier) Invoked @ Answered # replicate (length later) Invoked"
proof -
  let ?w1 = "fst (proxy_calls opts True earlier w)"
  from proxy_calls_files [OF assms(2), of earlier w True] assms(4)
  have r1: "snd (proxy_calls opts True earlier w) = replicate (length earlier) Invoked"
    and res1: "res ?w1 = res w"
    by simp_all
  let ?w2 = "?w1\<lparr>res := (res ?w1)\<lparr>
      headers := AList.update ''Content-Type'' ''application/json'' (headers (res ?w1)),
      body := Some (AList.update ''method'' (JStr m) ps),
      finished := True\<rparr>\<rparr>"
  from assms(1,3,5) res1 have one: "proxy_sendRequest opts True m ps ?w1 = (?w2, Answered)"
    by (simp add: proxy_sendRequest_def sendRequest_def)
  have fin: "finished (res ?w2)" by simp
  from proxy_calls_files [OF assms(2), of later ?w2 True] fin
  have r3: "snd (proxy_calls opts True later ?w2) = replicate (length later) Invoked"
    by simp
  show ?thesis
    unfolding proxy_calls_append proxy_calls_snd using one r1 r3 by simp
qed

section \<open>Claim on answering through the webhook response\<close>

text \<open>
  C5. During a dispatch that came with a response object, with \<^verbatim>\<open>webHookAnswer\<close> set: a
  call whose parameters carry no attachment and that finds the response not finished
  is answered by writing the parameters, with the field \<^verbatim>\<open>method\<close> set to the method, as
  the JSON body of the response, which is then finished; nothing goes to the network.
  A call that carries an attachment, or that finds the response finished, does what
  the call without a response object does: the remote invocation (given a token). So
  among the calls of one event at most one is answered through the response: the first
  one without an attachment, when the response was open at the start.
\<close>

theorem webhook_answer_once:
  assumes "webHookAnswer opts"
  shows "(\<not> finished (res w) \<and> \<not> isFileRequest options \<longrightarrow>
            proxy_sendRequest opts True method options w =
              (w\<lparr>res := (res w)\<lparr>
                  headers := AList.update ''Content-Type'' ''application/json'' (headers (res w)),
                  body := Some (AList.update ''method'' (JStr method) options),
                  finished := True\<rparr>\<rparr>, Answered))
         \<and> (finished (res w) \<or> isFileRequest options \<longrightarrow>
              proxy_sendRequest opts True method options w =
                sendRequest opts method options False w
              \<and> (has_token opts \<longrightarrow>
                    proxy_sendRequest opts True method options w =
                      (w\<lparr>network := network w @ [Call method options]\<rparr>, Invoked)))
         \<and> length (filter (\<lambda>r. r = Answered) (snd (proxy_calls opts True calls w))) \<le> 1
         \<and> (has_token opts \<and> \<not> finished (res w)
              \<and> list_all (\<lambda>c. isFileRequest (snd c)) earlier \<and> \<not> isFileRequest ps \<longrightarrow>
              snd (proxy_calls opts True (earlier @ (m, ps) # later) w) =
                replicate (length earlier) Invoked @ Answered # replicate (length later) Invoked)"
proof -
  have d: "snd (proxy_calls opts True (earlier @ (m, ps) # later) w) =
      replicate (length earlier) Invoked @ Answered # replicate (length later) Invoked"
    if "has_token opts \<and> \<not> finished (res w)
        \<and> list_all (\<lambda>c. isFileRequest (snd c)) earlier \<and> \<not> isFileRequest ps"
    using that first_plain_call_answered [OF assms, of w earlier ps m later] by blast
  have a: "proxy_sendRequest opts True method options w =
      (w\<lparr>res := (res w)\<lparr>
          headers := AList.update ''Content-Type'' ''application/json'' (headers (res w)),
          body := Some (AList.update ''method'' (JStr method) options),
          finished := True\<rparr>\<rparr>, Answered)"
    if "\<not> finished (res w) \<and> \<not> isFileRequest options"
    using that assms by (simp add: proxy_sendRequest_def sendRequest_answered)
  have b: "proxy_sendRequest opts True method options w = sendRequest opts method options False w
      \<and> (has_token opts \<longrightarrow>
            proxy_sendRequest opts True method options w =
              (w\<lparr>network := network w @ [Call method options]\<rparr>, Invoked))"
    if "finished (res w) \<or> isFileRequest options"
    using that assms
    by (auto simp: proxy_sendRequest_def sendRequest_network network_call_def)
  from a b d proxy_calls_at_most_one [of opts True calls w] show ?thesis by blast
qed

theorem webhook_answer_once_witness:
  "proxy_sendRequest sample_options True ''sendMessage''
       [(''chat_id'', JNum 7), (''text'', JStr ''hi'')] new_world =
     (new_world\<lparr>res := \<lparr>statusCode = 200,
         headers = [(''Content-Type'', ''application/json'')],
         body = Some [(''chat_id'', JNum 7), (''text'', JStr ''hi''),
                      (''method'', JStr ''sendMessage'')],
         finished = True\<rparr>\<rparr>, Answered)
   \<and> proxy_sendRequest sample_options True ''sendPhoto''
       [(''chat_id'', JNum 7), (''photo'', JObj [(''source'', JBinary [137, 80])])] new_world =
     (new_world\<lparr>network := [Call ''sendPhoto''
         [(''chat_id'', JNum 7), (''photo'', JObj [(''source'', JBinary [137, 80])])]]\<rparr>, Invoked)
   \<and> snd (proxy_calls sample_options True
        [(''sendPhoto'', [(''chat_id'', JNum 7), (''photo'', JObj [(''source'', JBinary [137, 80])])]),
         (''sendMessage'', [(''chat_id'', JNum 7), (''text'', JStr ''hi'')]),
         (''sendMessage'', [(''chat_id'', JNum 7), (''text'', JStr ''again'')])] new_world)
      = [Invoked, Answered, Invoked]"
proof -
  have o: "webHookAnswer sample_options" by (simp add: sample_options_def)
  have t: "has_token sample_options" by (simp add: sample_options_def has_token_def)
  have f1: "\<not> finished (res new_world)
      \<and> \<not> isFileRequest [(''chat_id'', JNum 7), (''text'', JStr ''hi'')]"
    by (simp add: new_world_def fresh_response_def isFileRequest_def js_and_def)
  have f2: "isFileRequest [(''chat_id'', JNum 7), (''photo'', JObj [(''source'', JBinary [137, 80])])]"
    by (simp add: isFileRequest_def js_and_def)
  have a: "proxy_sendRequest sample_options True ''sendMessage''
       [(''chat_id'', JNum 7), (''text'', JStr ''hi'')] new_world =
     (new_world\<lparr>res := \<lparr>statusCode = 200,
         headers = [(''Content-Type'', ''application/json'')],
         body = Some [(''chat_id'', JNum 7), (''text'', JStr ''hi''),
                      (''method'', JStr ''sendMessage'')],
         finished = True\<rparr>\<rparr>, Answered)"
    using webhook_answer_once [OF o, of new_world "[(''chat_id'', JNum 7), (''text'', JStr ''hi'')]"
        "''sendMessage''" "[]"] f1
    by (simp add: new_world_def fresh_response_def)
  have b: "proxy_sendRequest sample_options True ''sendPhoto''
       [(''chat_id'', JNum 7), (''photo'', JObj [(''source'', JBinary [137, 80])])] new_world =
     (new_world\<lparr>network := [Call ''sendPhoto''
         [(''chat_id'', JNum 7), (''photo'', JObj [(''source'', JBinary [137, 80])])]]\<rparr>, Invoked)"
  proof -
    from webhook_answer_once [OF o, of new_world
        "[(''chat_id'', JNum 7), (''photo'', JObj [(''source'', JBinary [137, 80])])]"
        "''sendPhoto''" "[]"] f2 t
    have "proxy_sendRequest sample_options True ''sendPhoto''
        [(''chat_id'', JNum 7), (''photo'', JObj [(''source'', JBinary [137, 80])])] new_world =
      (new_world\<lparr>network := network new_world @ [Call ''sendPhoto''
         [(''chat_id'', JNum 7), (''photo'', JObj [(''source'', JBinary [137, 80])])]]\<rparr>, Invoked)"
      by blast
    then show ?thesis by (simp add: new_world_def)
  qed
  have c: "snd (proxy_calls sample_options True
        [(''sendPhoto'', [(''chat_id'', JNum 7), (''photo'', JObj [(''source'', JBinary [137, 80])])]),
         (''sendMessage'', [(''chat_id'', JNum 7), (''text'', JStr ''hi'')]),
         (''sendMessage'', [(''chat_id'', JNum 7), (''text'', JStr ''again'')])] new_world)
      = [Invoked, Answered, Invoked]"
    by (simp add: proxy_sendRequest_def sendRequest_def network_call_def has_token_def
        sample_options_def isFileRequest_def js_and_def new_world_def fresh_response_def)
  from a b c show ?thesis by simp
qed

section \<open>Properties of the polling loop\<close>

lemma getUpdates_token:
  "has_token opts \<Longrightarrow>
   getUpdates opts w =
     (w\<lparr>network := network w @ [Updates (timeout w) (limit w) (offset w)]\<rparr>, Invoked)"
  by (simp add: getUpdates_def network_call_def)

lemma pollingLoop_total:
  "has_token opts \<Longrightarrow> \<exists>w'. pollingLoop cs opts middleware rs w = Inr w'"
proof (induction rs arbitrary: w)
  case Nil
  then show ?case by (simp add: getUpdates_token)
next
  case (Cons r rs)
  show ?case
  proof (cases "started w")
    case False
    then show ?thesis by simp
  next
    case True
    let ?w1 = "w\<lparr>network := network w @ [Updates (timeout w) (limit w) (offset w)]\<rparr>"
    obtain w2 updates where f: "fetched_updates r ?w1 = (w2, updates)"
      by (cases "fetched_updates r ?w1")
    obtain w3 d where d: "dispatch_phase cs opts middleware updates w2 = (w3, d)"
      by (cases "dispatch_phase cs opts middleware updates w2")
    from Cons.IH [OF Cons.prems, of w3] obtain w4 where
      rec: "pollingLoop cs opts middleware rs w3 = Inr w4" by blast
    show ?thesis
      using True Cons.prems f d rec
      by (cases d) (simp_all add: getUpdates_token)
  qed
qed

lemma pollingLoop_dispatch_failure:
  assumes "started w" and "has_token opts"
    and "dispatch_phase cs opts middleware updates
           (w\<lparr>network := network w @ [Updates (timeout w) (limit w) (offset w)]\<rparr>)
         = (w3, Failed e)"
  shows "pollingLoop cs opts middleware (Fetched updates # rs) w = Inr (polling_error e w3)"
  using assms by (simp add: getUpdates_token fetched_updates_def)

lemma dispatch_phase_Nil: "dispatch_phase cs opts middleware [] w = (w, Done)"
  by (simp add: dispatch_phase_def)

lemma pollingLoop_fetch_failure:
  assumes "started w" and "has_token opts"
  shows "pollingLoop cs opts middleware (FetchFailed # rs) w =
     pollingLoop cs opts middleware rs
       (w\<lparr>network := network w @ [Updates (timeout w) (limit w) (offset w)],
          trace := trace w @ [NetworkError]\<rparr>)"
proof -
  let ?w2 = "w\<lparr>network := network w @ [Updates (timeout w) (limit w) (offset w)],
          trace := trace w @ [NetworkError]\<rparr>"
  from pollingLoop_total [OF assms(2), of cs middleware rs ?w2] obtain w4 where
    rec: "pollingLoop cs opts middleware rs ?w2 = Inr w4" by blast
  from assms rec show ?thesis
    by (simp add: getUpdates_token fetched_updates_def dispatch_phase_Nil)
qed

lemma pollingLoop_only_failures:
  assumes "has_token opts"
  shows "started w \<Longrightarrow>
     \<exists>w'. pollingLoop cs opts middleware (replicate n FetchFailed) w = Inr w'
        \<and> started w' \<and> offset w' = offset w
        \<and> network w' = network w @ replicate (Suc n) (Updates (timeout w) (limit w) (offset w))"
proof (induction n arbitrary: w)
  case 0
  with assms show ?case by (simp add: getUpdates_token)
next
  case (Suc n)
  let ?w2 = "w\<lparr>network := network w @ [Updates (timeout w) (limit w) (offset w)],
          trace := trace w @ [NetworkError]\<rparr>"
  from Suc.prems have "started ?w2" by simp
  from Suc.IH [OF this] obtain w' where
    w': "pollingLoop cs opts middleware (replicate n FetchFailed) ?w2 = Inr w'"
        "started w'" "offset w' = offset ?w2"
        "network w' = network ?w2 @ replicate (Suc n) (Updates (timeout ?w2) (limit ?w2) (offset ?w2))"
    by blast
  have "pollingLoop cs opts middleware (replicate (Suc n) FetchFailed) w = Inr w'"
    using pollingLoop_fetch_failure [OF Suc.prems assms, of cs middleware "replicate n FetchFailed"]
      w'(1) by simp
  moreover from w'(4) have "network w' =
      network w @ replicate (Suc (Suc n)) (Updates (timeout w) (limit w) (offset w))"
    by (simp add: replicate_app_Cons_same)
  ultimately show ?case using w'(2,3) by simp
qed

section \<open>Claim on the failures of the polling loop\<close>

text \<open>
  C7. In a started loop (with a token): when the dispatch phase of a fetched batch
  fails with \<open>e\<close>, the loop prints the error, sets \<^verbatim>\<open>started\<close> to false and ends there: the
  results still to come are never asked for and no request is added. When the fetch
  fails, the loop prints the network error and goes on with the next iteration from
  the same state, \<^verbatim>\<open>started\<close> still true and the offset unchanged; after any number of
  fetch failures in a row the loop is still started and has asked once more with the
  same offset.
\<close>

theorem polling_failures:
  assumes "started w" and "has_token opts"
  shows "(dispatch_phase cs opts middleware updates
            (w\<lparr>network := network w @ [Updates (timeout w) (limit w) (offset w)]\<rparr>)
            = (w3, Failed e) \<longrightarrow>
          (\<exists>w'. pollingLoop cs opts middleware (Fetched updates # rs) w = Inr w'
              \<and> \<not> started w' \<and> network w' = network w3 \<and> offset w' = offset w3
              \<and> trace w' = trace w3 @ [PollingError e]))
       \<and> pollingLoop cs opts middleware (FetchFailed # rs) w =
           pollingLoop cs opts middleware rs
             (w\<lparr>network := network w @ [Updates (timeout w) (limit w) (offset w)],
                trace := trace w @ [NetworkError]\<rparr>)
       \<and> (\<exists>w'. pollingLoop cs opts middleware (replicate n FetchFailed) w = Inr w'
              \<and> started w' \<and> offset w' = offset w
              \<and> network w' =
                  network w @ replicate (Suc n) (Updates (timeout w) (limit w) (offset w)))"
proof -
  have a: "\<exists>w'. pollingLoop cs opts middleware (Fetched updates # rs) w = Inr w'
      \<and> \<not> started w' \<and> network w' = network w3 \<and> offset w' = offset w3
      \<and> trace w' = trace w3 @ [PollingError e]"
    if "dispatch_phase cs opts middleware updates
          (w\<lparr>network := network w @ [Updates (timeout w) (limit w) (offset w)]\<rparr>)
        = (w3, Failed e)"
    using pollingLoop_dispatch_failure [OF assms that] by (simp add: polling_error_def)
  from a pollingLoop_fetch_failure [OF assms, of cs middleware rs]
    pollingLoop_only_failures [OF assms(2) assms(1), of cs middleware n]
  show ?thesis by blast
qed

theorem polling_failures_witness:
  "(\<exists>w'. pollingLoop sample_constants sample_options (map handler_of sample_throwing_chain)
            [Fetched [sample_message], Fetched [sample_message]] sample_polling_world = Inr w'
        \<and> \<not> started w'
        \<and> network w' = [Updates (JNum 0) (JNum 100) (ONum 0)]
        \<and> offset w' = ONum 0)
   \<and> (\<exists>w'. pollingLoop sample_constants sample_options (map handler_of sample_throwing_chain)
            (replicate 2 FetchFailed) sample_polling_world = Inr w'
        \<and> started w'
        \<and> offset w' = ONum 0
        \<and> network w' = [Updates (JNum 0) (JNum 100) (ONum 0), Updates (JNum 0) (JNum 100) (ONum 0),
             Updates (JNum 0) (JNum 100) (ONum 0)])"
proof -
  let ?mw = "map handler_of sample_throwing_chain"
  let ?w1 = "sample_polling_world\<lparr>network := network sample_polling_world @
      [Updates (timeout sample_polling_world) (limit sample_polling_world)
         (offset sample_polling_world)]\<rparr>"
  let ?w3 = "?w1\<lparr>trace := [Logged ''a-enter'', Logged ''b-enter'', Raised (UserError ''boom''),
      Reported (UserError ''boom'')]\<rparr>"
  have s: "started sample_polling_world"
    by (simp add: sample_polling_world_def)
  have t: "has_token sample_options" by (simp add: sample_options_def has_token_def)
  have d: "dispatch_phase sample_constants sample_options ?mw [sample_message] ?w1 =
      (?w3, Failed (UserError ''boom''))"
    by (simp add: dispatch_phase_def handleUpdate_def extractUpdate_def sample_constants_def
        sample_message_def type_step_def subtype_step_def empty_result_def
        sample_throwing_chain_def compose_Cons compose_Nil handler_of_def noop_def onError_def
        sample_polling_world_def new_world_def)
  note inst = polling_failures [OF s t, of sample_constants ?mw "[sample_message]" ?w3
      "UserError ''boom''" "[Fetched [sample_message]]" 2]
  from inst d obtain wa where
    wa: "pollingLoop sample_constants sample_options ?mw
           [Fetched [sample_message], Fetched [sample_message]] sample_polling_world = Inr wa"
        "\<not> started wa" "network wa = network ?w3" "offset wa = offset ?w3"
    by blast
  from inst obtain wb where
    wb: "pollingLoop sample_constants sample_options ?mw (replicate 2 FetchFailed)
           sample_polling_world = Inr wb"
        "started wb" "offset wb = offset sample_polling_world"
        "network wb = network sample_polling_world @
           replicate (Suc 2) (Updates (timeout sample_polling_world)
             (limit sample_polling_world) (offset sample_polling_world))"
    by blast
  from wa(3,4) have na: "network wa = [Updates (JNum 0) (JNum 100) (ONum 0)]" "offset wa = ONum 0"
    by (simp_all add: sample_polling_world_def new_world_def)
  from wb(3,4) have nb: "offset wb = ONum 0"
    "network wb = [Updates (JNum 0) (JNum 100) (ONum 0), Updates (JNum 0) (JNum 100) (ONum 0),
       Updates (JNum 0) (JNum 100) (ONum 0)]"
    by (simp_all add: sample_polling_world_def new_world_def numeral_2_eq_2)
  from wa(1,2) na wb(1,2) nb show ?thesis by blast
qed

section \<open>The webhook endpoint on an unparsable body\<close>

lemma webHookCallback_unparsable:
  assumes "http_method req = ''POST''" and "url req = ''/''" and "parse (body_text req) = None"
  shows "webHookCallback cs opts middleware parse None req has_next w =
     (w\<lparr>trace := trace w @ [Reported SyntaxError]\<rparr>, Uncaught SyntaxError)"
  using assms by (simp add: webHookCallback_def catch_block_def onError_def)

text \<open>
  C2. A POST to the configured path whose body does not parse: \<^verbatim>\<open>onError\<close> is called
  once and no dispatch happens, but \<^verbatim>\<open>onError\<close> throws the error again, so the two
  statements after it in the \<^verbatim>\<open>catch\<close> block never run: the exception leaves the
  listener, the response is not finished and its status is not 415.
\<close>

theorem webhook_unparsable_body_escapes:
  "webHookCallback sample_constants sample_options [recorder ''a''] sample_parse None
     \<lparr>http_method = ''POST'', url = ''/'', body_text = ''{oops''\<rparr> False new_world =
     (new_world\<lparr>trace := [Reported SyntaxError]\<rparr>, Uncaught SyntaxError)
   \<and> \<not> finished (res (fst (webHookCallback sample_constants sample_options [recorder ''a'']
          sample_parse None \<lparr>http_method = ''POST'', url = ''/'', body_text = ''{oops''\<rparr>
          False new_world)))
   \<and> statusCode (res (fst (webHookCallback sample_constants sample_options [recorder ''a'']
          sample_parse None \<lparr>http_method = ''POST'', url = ''/'', body_text = ''{oops''\<rparr>
          False new_world))) \<noteq> 415"
  by (simp add: webHookCallback_unparsable sample_parse_def new_world_def fresh_response_def)

theorem webhook_unparsable_body_escapes_witness:
  "snd (webHookCallback sample_constants sample_options [recorder ''a''] sample_parse None
          \<lparr>http_method = ''POST'', url = ''/'', body_text = ''{oops''\<rparr> False new_world)
     = Uncaught SyntaxError
   \<and> trace (fst (webHookCallback sample_constants sample_options [recorder ''a''] sample_parse
          None \<lparr>http_method = ''POST'', url = ''/'', body_text = ''{oops''\<rparr> False new_world))
     = [Reported SyntaxError]"
  using webhook_unparsable_body_escapes by simp

end
